theory Spec2Isabelle
  imports Main "HOL-Library.Word"
begin

section \<open>Data model of the channel multiplexer\<close>

text \<open>
  The counter of a channel is an \<open>int64\<close>: a 64-bit word, whose \<open>+\<close> wraps around. Go's
  \<open>int\<close> is 32 or 64 bits wide, as the build target has it. A value of type \<open>int\<close> is
  held here in 64 bits, sign-extended, so that \<open>sint\<close> reads the number the Go program
  compares on either target; on a 32-bit target the values of \<open>int\<close> are those between
  \<open>-2^31\<close> and \<open>2^31 - 1\<close>.
\<close>

type_synonym go_int = "64 word"

datatype int_size = Int32 | Int64

text \<open>
  The conversion \<open>int(x)\<close> of an \<open>int64\<close>: the identity where \<open>int\<close> has 64 bits, the low
  32 bits read as a signed number where it has 32.
\<close>

definition int_of_int64 :: "int_size \<Rightarrow> 64 word \<Rightarrow> go_int" where
  "int_of_int64 sz x = (case sz of Int64 \<Rightarrow> x | Int32 \<Rightarrow> scast (ucast x :: 32 word))"

text \<open>The values of \<open>int\<close> are the numbers from \<open>- int_bound\<close> up to \<open>int_bound - 1\<close>.\<close>

definition int_bound :: "int_size \<Rightarrow> int" where
  "int_bound sz = (case sz of Int32 \<Rightarrow> 2 ^ 31 | Int64 \<Rightarrow> 2 ^ 63)"

text \<open>
  \<open>PayloadHeaders\<close>: the field \<open>RequestId\<close> is a pointer to an int in the source, so it
  is an option here (\<open>None\<close> is the nil pointer).
\<close>

record PayloadHeaders =
  Type :: string
  ResponseType :: string
  RequestId :: "go_int option"

datatype panic = NilPointerDereference

definition setRequestId :: "go_int \<Rightarrow> PayloadHeaders \<Rightarrow> PayloadHeaders" where
  "setRequestId i h = h\<lparr>RequestId := Some i\<rparr>"

definition getRequestId :: "PayloadHeaders \<Rightarrow> panic + go_int" where
  "getRequestId h =
     (case RequestId h of None \<Rightarrow> Inl NilPointerDereference | Some i \<Rightarrow> Inr i)"

text \<open>
  Modelled from the spec: the type \<open>api.CastMessage\<close> is declared outside the source at
  hand. The spec's wire message carries \<open>source_id\<close>, \<open>destination_id\<close>, \<open>namespace\<close> and
  the payload; dispatch reads the first three.
\<close>

record CastMessage =
  SourceId :: string
  DestinationId_msg :: string
  Namespace :: string
  PayloadUtf8 :: string

text \<open>
  A Go channel value \<open>chan *api.CastMessage\<close> and a callback \<open>func(*api.CastMessage)\<close> are
  identified by a number each. What dispatch does with them is recorded as an event:
  the log line, the send of a message on a waiter's channel, the call of a callback.
\<close>

type_synonym chan = nat
type_synonym callback_id = nat

datatype event =
  Logged
  | Delivered chan CastMessage
  | Invoked callback_id CastMessage

record channelListener =
  responseType :: string
  callback :: callback_id

record Channel =
  sourceId :: string
  DestinationId :: string
  namespace :: string
  requestId :: "64 word"
  inFlight :: "go_int \<rightharpoonup> chan"
  listeners :: "channelListener list"

definition NewChannel :: "string \<Rightarrow> string \<Rightarrow> string \<Rightarrow> Channel" where
  "NewChannel sourceId' destinationId' namespace' =
     \<lparr> sourceId = sourceId', DestinationId = destinationId', namespace = namespace',
       requestId = 0, inFlight = Map.empty, listeners = [] \<rparr>"

section \<open>Inbound dispatch: \<open>Channel.Message\<close>\<close>

text \<open>
  The three critical sections of the source, each run under \<open>c.mutex\<close>: the lookup in
  \<open>Message\<close>, the insert in \<open>Request\<close>, and the delete that both of them use.
\<close>

definition lookupInFlight :: "Channel \<Rightarrow> go_int \<Rightarrow> chan option" where
  "lookupInFlight c r = inFlight c r"

definition insertInFlight :: "Channel \<Rightarrow> go_int \<Rightarrow> chan \<Rightarrow> Channel" where
  "insertInFlight c r response = c\<lparr>inFlight := (inFlight c)(r \<mapsto> response)\<rparr>"

definition deleteInFlight :: "Channel \<Rightarrow> go_int \<Rightarrow> Channel" where
  "deleteInFlight c r = c\<lparr>inFlight := (inFlight c)(r := None)\<rparr>"

text \<open>
  A call either returns, with the channel's new state and the events it caused so far, or
  it parks for ever on the send to an unbuffered channel that nobody receives from.
\<close>

datatype 'a run = Returned 'a | BlockedOnSend chan 'a

text \<open>The range loop over \<open>c.listeners\<close>: callbacks run in the order of the slice.\<close>

fun fanout :: "channelListener list \<Rightarrow> PayloadHeaders \<Rightarrow> CastMessage \<Rightarrow> event list" where
  "fanout [] headers message = []"
| "fanout (listener # rest) headers message =
     (if responseType listener = Type headers
         \<or> (ResponseType headers \<noteq> [] \<and> responseType listener = ResponseType headers)
      then Invoked (callback listener) message # fanout rest headers message
      else fanout rest headers message)"

text \<open>
  The block guarded by \<open>headers.RequestId != nil && *headers.RequestId != 0\<close>. The send
  \<open>listener <- message\<close> is on an unbuffered channel: it completes only when the waiter is
  receiving, that is when its channel is in the set \<open>receiving\<close>; the delete follows the send.
\<close>

definition correlate ::
  "Channel \<Rightarrow> CastMessage \<Rightarrow> PayloadHeaders \<Rightarrow> chan set \<Rightarrow> (Channel \<times> event list) run" where
  "correlate c message headers receiving =
     (case RequestId headers of
        None \<Rightarrow> Returned (c, [])
      | Some r \<Rightarrow>
          if r = 0 then Returned (c, [])
          else (case lookupInFlight c r of
                  None \<Rightarrow> Returned (c, [])
                | Some listener \<Rightarrow>
                    if listener \<in> receiving
                    then Returned (deleteInFlight c r, [Delivered listener message])
                    else BlockedOnSend listener (c, [])))"

text \<open>The body of \<open>Message\<close> after the addressing check: header check, correlation, fan-out.\<close>

definition Message_accepted ::
  "Channel \<Rightarrow> CastMessage \<Rightarrow> PayloadHeaders \<Rightarrow> chan set \<Rightarrow> (Channel \<times> event list) run" where
  "Message_accepted c message headers receiving =
     (if Type headers = [] \<and> ResponseType headers = []
      then Returned (c, [Logged])
      else (case correlate c message headers receiving of
              BlockedOnSend listener x \<Rightarrow> BlockedOnSend listener x
            | Returned (c', evs) \<Rightarrow>
                Returned (c', evs @ fanout (listeners c') headers message)))"

definition Message ::
  "Channel \<Rightarrow> CastMessage \<Rightarrow> PayloadHeaders \<Rightarrow> chan set \<Rightarrow> (Channel \<times> event list) run" where
  "Message c message headers receiving =
     (if DestinationId_msg message \<noteq> ''*''
         \<and> (SourceId message \<noteq> DestinationId c
              \<or> DestinationId_msg message \<noteq> sourceId c
              \<or> Namespace message \<noteq> namespace c)
      then Returned (c, [])
      else Message_accepted c message headers receiving)"

text \<open>What a run of dispatch showed to the outside: the sends to waiters, the callbacks called.\<close>

fun delivered :: "event list \<Rightarrow> (chan \<times> CastMessage) list" where
  "delivered [] = []"
| "delivered (Delivered ch m # es) = (ch, m) # delivered es"
| "delivered (e # es) = delivered es"

fun invoked :: "event list \<Rightarrow> (callback_id \<times> CastMessage) list" where
  "invoked [] = []"
| "invoked (Invoked cb m # es) = (cb, m) # invoked es"
| "invoked (e # es) = invoked es"

text \<open>
  The addressing filter and the listener match in the words of the specification, to be
  compared with the conditions the source evaluates.
\<close>

definition spec_addressed :: "Channel \<Rightarrow> CastMessage \<Rightarrow> bool" where
  "spec_addressed c message =
     (DestinationId_msg message = ''*''
      \<or> (SourceId message = DestinationId c
          \<and> DestinationId_msg message = sourceId c
          \<and> Namespace message = namespace c))"

definition spec_matches :: "PayloadHeaders \<Rightarrow> channelListener \<Rightarrow> bool" where
  "spec_matches headers listener =
     (responseType listener = Type headers
      \<or> (ResponseType headers \<noteq> [] \<and> responseType listener = ResponseType headers))"

definition OnMessage :: "Channel \<Rightarrow> string \<Rightarrow> callback_id \<Rightarrow> Channel" where
  "OnMessage c responseType' cb =
     c\<lparr>listeners := listeners c @ [\<lparr>responseType = responseType', callback = cb\<rparr>]\<rparr>"

section \<open>Outbound requests: \<open>Channel.Request\<close>\<close>

text \<open>
  \<open>IOError\<close> stands for whatever error the connection's \<open>Send\<close> returns; the other two are
  the values of \<open>ctx.Err()\<close>. The connection is outside the source at hand, so the outcome
  of \<open>Send\<close> is an argument, as is the channel that \<open>make\<close> returns, and the width of
  \<open>int\<close> on the build target.
\<close>

datatype error = IOError | DeadlineExceeded | Canceled

text \<open>
  Up to and including the check of the error of \<open>Send\<close>: the \<open>int64\<close> counter is
  incremented, its new value converted to \<open>int\<close> is the requestId, the id is stamped into
  the payload, the waiter is inserted under it, and on a failed send it is deleted again.
  The result carries the stamped payload and the id.
\<close>

definition Request_send ::
  "int_size \<Rightarrow> Channel \<Rightarrow> PayloadHeaders \<Rightarrow> chan \<Rightarrow> error option
     \<Rightarrow> Channel \<times> PayloadHeaders \<times> go_int \<times> error option" where
  "Request_send sz c payload response sent =
     (let c1 = c\<lparr>requestId := requestId c + 1\<rparr>;
          r = int_of_int64 sz (requestId c1);
          payload' = setRequestId r payload;
          c2 = insertInFlight c1 r response
      in case sent of
           Some err \<Rightarrow> (deleteInFlight c2 r, payload', r, Some err)
         | None \<Rightarrow> (c2, payload', r, None))"

text \<open>The \<open>select\<close>: either a reply is received on \<open>response\<close>, or \<open>ctx.Done()\<close> fires.\<close>

datatype select_event = Reply CastMessage | Done error

definition Request_select ::
  "Channel \<Rightarrow> go_int \<Rightarrow> select_event \<Rightarrow> Channel \<times> (error + CastMessage)" where
  "Request_select c r ev =
     (case ev of
        Reply reply \<Rightarrow> (c, Inr reply)
      | Done err \<Rightarrow> (deleteInFlight c r, Inl err))"

definition Request ::
  "int_size \<Rightarrow> Channel \<Rightarrow> PayloadHeaders \<Rightarrow> chan \<Rightarrow> error option \<Rightarrow> select_event
     \<Rightarrow> Channel \<times> (error + CastMessage)" where
  "Request sz c payload response sent ev =
     (case Request_send sz c payload response sent of
        (c', payload', r, Some err) \<Rightarrow> (c', Inl err)
      | (c', payload', r, None) \<Rightarrow> Request_select c' r ev)"

section \<open>Example values\<close>

text \<open>
  A sender's channel on the receiver namespace with request 7 outstanding on Go channel 3
  and three listeners, and some inbound traffic: the reply to request 7, a broadcast from
  another device, and a frame addressed to another sender.
\<close>

definition ex_channel :: Channel where
  "ex_channel =
     \<lparr> sourceId = ''sender-0'', DestinationId = ''receiver-0'',
       namespace = ''urn:x-cast:com.google.cast.receiver'',
       requestId = 7, inFlight = [7 \<mapsto> 3],
       listeners = [\<lparr>responseType = ''STATUS'', callback = 11\<rparr>,
                    \<lparr>responseType = ''PONG'', callback = 12\<rparr>,
                    \<lparr>responseType = ''STATUS'', callback = 14\<rparr>] \<rparr>"

definition ex_reply :: CastMessage where
  "ex_reply =
     \<lparr> SourceId = ''receiver-0'', DestinationId_msg = ''sender-0'',
       Namespace = ''urn:x-cast:com.google.cast.receiver'', PayloadUtf8 = ''status'' \<rparr>"

definition ex_broadcast :: CastMessage where
  "ex_broadcast =
     \<lparr> SourceId = ''tv'', DestinationId_msg = ''*'',
       Namespace = ''urn:x-cast:com.google.cast.media'', PayloadUtf8 = ''status'' \<rparr>"

definition ex_foreign :: CastMessage where
  "ex_foreign =
     \<lparr> SourceId = ''receiver-0'', DestinationId_msg = ''sender-9'',
       Namespace = ''urn:x-cast:com.google.cast.receiver'', PayloadUtf8 = ''status'' \<rparr>"

definition ex_status :: PayloadHeaders where
  "ex_status = \<lparr> Type = [], ResponseType = ''STATUS'', RequestId = Some 7 \<rparr>"

definition ex_untyped :: PayloadHeaders where
  "ex_untyped = \<lparr> Type = [], ResponseType = [], RequestId = Some 7 \<rparr>"

definition ex_query :: PayloadHeaders where
  "ex_query = \<lparr> Type = ''GET_STATUS'', ResponseType = [], RequestId = None \<rparr>"

lemmas ex_defs =
  ex_channel_def ex_reply_def ex_broadcast_def ex_foreign_def ex_status_def ex_untyped_def
  ex_query_def

lemmas dispatch_defs =
  Message_def Message_accepted_def correlate_def lookupInFlight_def deleteInFlight_def
  insertInFlight_def

section \<open>Sequences of calls on one channel\<close>

text \<open>
  The calls made on one \<open>Channel\<close>, in the order in which they take effect, each with the
  outcomes that are outside the channel's control: the channel \<open>make\<close> returned and the
  results of \<open>Send\<close> and of the \<open>select\<close> for a request, the set of receiving waiters for a
  dispatch. \<open>stamped\<close> lists the requestIds that the requests among them read back from
  their payloads after \<open>setRequestId\<close>.
\<close>

datatype call =
  CallRequest PayloadHeaders chan "error option" select_event
  | CallMessage CastMessage PayloadHeaders "chan set"
  | CallOnMessage string callback_id

fun after_Message :: "(Channel \<times> event list) run \<Rightarrow> Channel" where
  "after_Message (Returned (c, evs)) = c"
| "after_Message (BlockedOnSend ch (c, evs)) = c"

fun stamped :: "int_size \<Rightarrow> Channel \<Rightarrow> call list \<Rightarrow> go_int list" where
  "stamped sz c [] = []"
| "stamped sz c (CallRequest payload response sent ev # calls) =
     (case Request_send sz c payload response sent of
        (c1, payload', r, e) \<Rightarrow>
          (case getRequestId payload' of
             Inl p \<Rightarrow> []
           | Inr i \<Rightarrow> i # stamped sz (fst (Request sz c payload response sent ev)) calls))"
| "stamped sz c (CallMessage message headers receiving # calls) =
     stamped sz (after_Message (Message c message headers receiving)) calls"
| "stamped sz c (CallOnMessage responseType' cb # calls) =
     stamped sz (OnMessage c responseType' cb) calls"

fun requests :: "call list \<Rightarrow> nat" where
  "requests [] = 0"
| "requests (CallRequest payload response sent ev # calls) = Suc (requests calls)"
| "requests (other # calls) = requests calls"

definition strictly_increasing :: "go_int list \<Rightarrow> bool" where
  "strictly_increasing ids = sorted_wrt (\<lambda>a b. sint a < sint b) ids"

section \<open>A reply racing a deadline\<close>

text \<open>
  One outstanding \<open>Request\<close> with id \<open>r\<close>, parked in its \<open>select\<close> on the channel
  \<open>response\<close>, and one run of \<open>Message\<close> that carries \<open>r\<close> and has passed both filters,
  as two goroutines. The steps are the atomic actions of the source:
  \<^item> \<open>Lookup\<close>: the first critical section of \<open>Message\<close>, which reads \<open>c.inFlight[r]\<close>;
  \<^item> \<open>Rendezvous\<close>: the send \<open>listener <- message\<close> meeting the receive of the \<open>select\<close>
    (the channel is unbuffered, so the send needs the receiver), after which \<open>Request\<close>
    returns the reply;
  \<^item> \<open>CtxDone\<close>: the \<open>select\<close> taking \<open>ctx.Done()\<close>, the delete under the lock and the
    return of \<open>ctx.Err()\<close>;
  \<^item> \<open>Delete\<close>: the second critical section of \<open>Message\<close>, after the send.
  An action that is not enabled in a state gives \<open>None\<close>.
\<close>

datatype dispatch_pc = AtLookup | AtSend chan | AtDelete | AtFanout
datatype request_pc = AtSelect | Resolved "error + CastMessage"

record race =
  channel :: Channel
  dispatching :: dispatch_pc
  requesting :: request_pc

datatype action = Lookup | Rendezvous | CtxDone error | Delete

fun fire :: "go_int \<Rightarrow> chan \<Rightarrow> CastMessage \<Rightarrow> action \<Rightarrow> race \<Rightarrow> race option" where
  "fire r response message Lookup s =
     (if dispatching s = AtLookup
      then Some (s\<lparr>dispatching :=
                   (case lookupInFlight (channel s) r of
                      None \<Rightarrow> AtFanout
                    | Some listener \<Rightarrow> AtSend listener)\<rparr>)
      else None)"
| "fire r response message Rendezvous s =
     (if dispatching s = AtSend response \<and> requesting s = AtSelect
      then Some (s\<lparr>dispatching := AtDelete, requesting := Resolved (Inr message)\<rparr>)
      else None)"
| "fire r response message (CtxDone err) s =
     (if requesting s = AtSelect
      then Some (s\<lparr>channel := deleteInFlight (channel s) r, requesting := Resolved (Inl err)\<rparr>)
      else None)"
| "fire r response message Delete s =
     (if dispatching s = AtDelete
      then Some (s\<lparr>channel := deleteInFlight (channel s) r, dispatching := AtFanout\<rparr>)
      else None)"

fun schedule :: "go_int \<Rightarrow> chan \<Rightarrow> CastMessage \<Rightarrow> action list \<Rightarrow> race \<Rightarrow> race option" where
  "schedule r response message [] s = Some s"
| "schedule r response message (a # as) s =
     (case fire r response message a s of
        None \<Rightarrow> None
      | Some s' \<Rightarrow> schedule r response message as s')"

definition ex_race :: race where
  "ex_race = \<lparr> channel = ex_channel, dispatching = AtLookup, requesting = AtSelect \<rparr>"

section \<open>Facts about dispatch\<close>

lemma fanout_invoked: "invoked (fanout ls h m) = map (\<lambda>l. (callback l, m)) (filter (spec_matches h) ls)"
  by (induction ls) (auto simp: spec_matches_def)

lemma fanout_delivered: "delivered (fanout ls h m) = []"
  by (induction ls) auto

lemma delivered_append: "delivered (xs @ ys) = delivered xs @ delivered ys"
  by (induction xs rule: delivered.induct) auto

lemma invoked_append: "invoked (xs @ ys) = invoked xs @ invoked ys"
  by (induction xs rule: invoked.induct) auto

lemma Message_addressed:
  "spec_addressed c m \<Longrightarrow> Message c m h recv = Message_accepted c m h recv"
  by (auto simp: Message_def spec_addressed_def)

lemma correlate_cases:
  "correlate c m h recv =
     (case RequestId h of None \<Rightarrow> Returned (c, [])
      | Some r \<Rightarrow> if r = 0 then Returned (c, [])
         else (case inFlight c r of None \<Rightarrow> Returned (c, [])
               | Some ch \<Rightarrow> if ch \<in> recv then Returned (deleteInFlight c r, [Delivered ch m])
                            else BlockedOnSend ch (c, [])))"
  by (auto simp: correlate_def lookupInFlight_def split: option.splits)

lemma correlate_listeners:
  "correlate c m h recv = Returned (c', evs) \<Longrightarrow> listeners c' = listeners c \<and> invoked evs = []"
  by (auto simp: correlate_cases deleteInFlight_def split: option.splits if_splits)

lemma correlate_returns:
  assumes "\<forall>r ch. RequestId h = Some r \<and> r \<noteq> 0 \<and> inFlight c r = Some ch \<longrightarrow> ch \<in> recv"
  shows "\<exists>c' evs. correlate c m h recv = Returned (c', evs)"
  using assms by (auto simp: correlate_cases split: option.splits)

lemma Message_no_delivery_keeps_table:
  "Message c m h recv = Returned (c', evs) \<Longrightarrow> delivered evs = [] \<Longrightarrow> inFlight c' = inFlight c"
  by (auto simp: Message_def Message_accepted_def correlate_cases delivered_append fanout_delivered
      split: if_splits option.splits)

lemma Request_send_ok:
  "Request_send sz c p ch None =
     (insertInFlight (c\<lparr>requestId := requestId c + 1\<rparr>) (int_of_int64 sz (requestId c + 1)) ch,
      setRequestId (int_of_int64 sz (requestId c + 1)) p, int_of_int64 sz (requestId c + 1), None)"
  by (simp add: Request_send_def Let_def)

lemma Request_send_failed:
  "Request_send sz c p ch (Some err) =
     (deleteInFlight
        (insertInFlight (c\<lparr>requestId := requestId c + 1\<rparr>) (int_of_int64 sz (requestId c + 1)) ch)
        (int_of_int64 sz (requestId c + 1)),
      setRequestId (int_of_int64 sz (requestId c + 1)) p, int_of_int64 sz (requestId c + 1),
      Some err)"
  by (simp add: Request_send_def Let_def)

lemma Message_absent:
  assumes "RequestId h = Some r" and "inFlight c r = None"
  shows "\<exists>evs. Message c m h recv = Returned (c, evs) \<and> delivered evs = []"
  using assms
  by (auto simp: Message_def Message_accepted_def correlate_cases fanout_delivered)


text \<open>
  What dispatch does when the send to the waiter of the message, if it has one, is
  received: it returns, the callbacks called are those of the matching listeners in the
  order of the registry, and the table loses the entry of the waiter and nothing else.
\<close>

lemma Message_fanout_order:
  assumes "spec_addressed c m" and "Type h \<noteq> [] \<or> ResponseType h \<noteq> []"
    and "\<forall>r ch. RequestId h = Some r \<and> r \<noteq> 0 \<and> inFlight c r = Some ch \<longrightarrow> ch \<in> recv"
  shows "(\<exists>c' evs. Message c m h recv = Returned (c', evs)
            \<and> invoked evs = map (\<lambda>l. (callback l, m)) (filter (spec_matches h) (listeners c)))
         \<and> listeners (OnMessage c k cb) = listeners c @ [\<lparr>responseType = k, callback = cb\<rparr>]"
proof -
  obtain c' evs where corr: "correlate c m h recv = Returned (c', evs)"
    using correlate_returns [OF assms(3)] by blast
  have ls: "listeners c' = listeners c" and inv: "invoked evs = []"
    using correlate_listeners [OF corr] by simp_all
  have "Message c m h recv = Returned (c', evs @ fanout (listeners c') h m)"
    using assms(1,2) corr by (auto simp: Message_addressed Message_accepted_def)
  moreover have "invoked (evs @ fanout (listeners c') h m)
      = map (\<lambda>l. (callback l, m)) (filter (spec_matches h) (listeners c))"
    by (simp add: invoked_append inv fanout_invoked ls)
  ultimately show ?thesis by (simp add: OnMessage_def)
qed

lemma Message_correlation_and_fanout:
  assumes "spec_addressed c m" and "Type h \<noteq> [] \<or> ResponseType h \<noteq> []"
    and "RequestId h = Some r" and "r \<noteq> 0" and "inFlight c r = Some ch" and "ch \<in> recv"
    and "l \<in> set (listeners c)" and "spec_matches h l"
  shows "\<exists>c' evs. Message c m h recv = Returned (c', evs)
            \<and> delivered evs = [(ch, m)]
            \<and> (callback l, m) \<in> set (invoked evs)
            \<and> inFlight c' = (inFlight c)(r := None)
            \<and> evs = Delivered ch m # fanout (listeners c) h m"
proof -
  have corr: "correlate c m h recv = Returned (deleteInFlight c r, [Delivered ch m])"
    using assms(3-6) by (simp add: correlate_cases)
  have msg: "Message c m h recv
      = Returned (deleteInFlight c r, Delivered ch m # fanout (listeners c) h m)"
    using assms(1,2) corr by (auto simp: Message_addressed Message_accepted_def deleteInFlight_def)
  have "(callback l, m) \<in> set (invoked (fanout (listeners c) h m))"
    using assms(7,8) by (auto simp: fanout_invoked)
  then show ?thesis
    using msg by (simp add: fanout_delivered deleteInFlight_def)
qed

section \<open>Facts about the request counter\<close>

lemma sint_succ: "sint (x :: 64 word) < 2 ^ 63 - 1 \<Longrightarrow> sint (x + 1) = sint x + 1"
proof -
  have lo: "- (2 ^ 63) \<le> sint x"
    using sint_ge [of x] by simp
  assume hi: "sint x < 2 ^ 63 - 1"
  have "sint (x + 1) = signed_take_bit 63 (sint x + 1)"
    by (simp add: sint_word_ariths)
  also have "\<dots> = sint x + 1"
    using lo hi by (intro signed_take_bit_int_eq_self) simp_all
  finally show ?thesis .
qed

lemma sint_low_32:
  assumes "- (2 ^ 31) \<le> sint (x :: 64 word)" and "sint x < 2 ^ 31"
  shows "sint (scast (ucast x :: 32 word) :: 64 word) = sint x"
proof -
  have "sint (scast (ucast x :: 32 word) :: 64 word)
      = signed_take_bit 63 (sint (ucast x :: 32 word))"
    by (simp add: signed_scast_eq)
  also have "sint (ucast x :: 32 word) = signed_take_bit 31 (uint x)"
    by (simp add: signed_ucast_eq)
  also have "signed_take_bit 31 (uint x) = signed_take_bit 31 (sint x)"
    by (simp add: signed_take_bit_eq_iff_take_bit_eq sint_uint take_bit_signed_take_bit)
  also have "signed_take_bit 31 (sint x) = sint x"
    using assms by (intro signed_take_bit_int_eq_self) simp_all
  also have "signed_take_bit 63 (sint x) = sint x"
    using assms by (intro signed_take_bit_int_eq_self) simp_all
  finally show ?thesis .
qed

lemma int_bound_le: "int_bound sz \<le> 2 ^ 63"
  by (cases sz) (simp_all add: int_bound_def)

lemma sint_int_of_int64:
  assumes "- int_bound sz \<le> sint x" and "sint x < int_bound sz"
  shows "sint (int_of_int64 sz x) = sint x"
proof (cases sz)
  case Int32
  then show ?thesis
    using assms sint_low_32 [of x] by (simp add: int_of_int64_def int_bound_def)
next
  case Int64
  then show ?thesis
    by (simp add: int_of_int64_def)
qed

lemma requestId_Request:
  "requestId (fst (Request sz c p ch sent ev)) = requestId c + 1"
  by (cases sent; cases ev)
    (simp_all add: Request_def Request_send_ok Request_send_failed Request_select_def
      insertInFlight_def deleteInFlight_def)

lemma requestId_Message: "requestId (after_Message (Message c m h recv)) = requestId c"
  by (auto simp: Message_def Message_accepted_def correlate_def lookupInFlight_def
      deleteInFlight_def split: option.splits)

lemma requestId_OnMessage: "requestId (OnMessage c k cb) = requestId c"
  by (simp add: OnMessage_def)

lemma stamped_Request:
  "stamped sz c (CallRequest p ch sent ev # calls)
     = int_of_int64 sz (requestId c + 1) # stamped sz (fst (Request sz c p ch sent ev)) calls"
  by (cases sent)
    (simp_all add: Request_send_ok Request_send_failed getRequestId_def setRequestId_def)

lemma next_id:
  assumes "- int_bound sz \<le> sint (requestId c)" and "sint (requestId c) + 1 < int_bound sz"
  shows "sint (requestId c + 1) = sint (requestId c) + 1"
    and "sint (int_of_int64 sz (requestId c + 1)) = sint (requestId c) + 1"
proof -
  show s: "sint (requestId c + 1) = sint (requestId c) + 1"
    using assms(2) int_bound_le [of sz] by (intro sint_succ) simp
  show "sint (int_of_int64 sz (requestId c + 1)) = sint (requestId c) + 1"
    using assms s by (simp add: sint_int_of_int64)
qed

lemma stamped_above:
  assumes "- int_bound sz \<le> sint (requestId c)"
    and "sint (requestId c) + int (requests calls) < int_bound sz"
  shows "\<forall>r \<in> set (stamped sz c calls). sint (requestId c) < sint r"
  using assms
proof (induction calls arbitrary: c)
  case Nil
  then show ?case by simp
next
  case (Cons a calls)
  show ?case
  proof (cases a)
    case (CallRequest p ch sent ev)
    let ?c' = "fst (Request sz c p ch sent ev)"
    have small: "sint (requestId c) + 1 < int_bound sz"
      using Cons.prems(2) CallRequest by simp
    note s = next_id [OF Cons.prems(1) small]
    have "- int_bound sz \<le> sint (requestId ?c')"
      and "sint (requestId ?c') + int (requests calls) < int_bound sz"
      using Cons.prems CallRequest s(1) by (simp_all add: requestId_Request)
    from Cons.IH [OF this] show ?thesis
      using s by (auto simp: CallRequest stamped_Request requestId_Request simp del: stamped.simps)
  next
    case (CallMessage m h recv)
    then show ?thesis
      using Cons.IH [of "after_Message (Message c m h recv)"] Cons.prems
      by (simp add: requestId_Message)
  next
    case (CallOnMessage k cb)
    then show ?thesis
      using Cons.IH [of "OnMessage c k cb"] Cons.prems
      by (simp add: requestId_OnMessage)
  qed
qed

lemma stamped_replicate:
  "stamped sz c (replicate k (CallRequest p ch sent ev))
     = map (\<lambda>i. int_of_int64 sz (requestId c + of_nat i)) [Suc 0..<Suc k]"
proof (induction k arbitrary: c)
  case 0
  then show ?case by simp
next
  case (Suc k)
  let ?c' = "fst (Request sz c p ch sent ev)"
  let ?r = "CallRequest p ch sent ev"
  have A: "stamped sz c (replicate (Suc k) ?r)
      = int_of_int64 sz (requestId c + 1) # stamped sz ?c' (replicate k ?r)"
    by (simp only: replicate_Suc stamped_Request)
  have B: "stamped sz ?c' (replicate k ?r)
      = map (\<lambda>i. int_of_int64 sz (requestId ?c' + of_nat i)) [Suc 0..<Suc k]"
    by (rule Suc.IH)
  have C: "map (\<lambda>i. int_of_int64 sz (requestId ?c' + of_nat i)) [Suc 0..<Suc k]
      = map (\<lambda>i. int_of_int64 sz (requestId c + of_nat i)) (map Suc [Suc 0..<Suc k])"
    by (simp add: requestId_Request add.assoc del: upt_Suc)
  have D: "map Suc [Suc 0..<Suc k] = [Suc (Suc 0)..<Suc (Suc k)]"
    by (rule map_Suc_upt)
  have E: "[Suc 0..<Suc (Suc k)] = Suc 0 # [Suc (Suc 0)..<Suc (Suc k)]"
    by (rule upt_conv_Cons) simp
  show ?case
    unfolding A B C D E by (simp del: upt_Suc)
qed

lemma not_increasing_at:
  assumes "Suc i < k" and "\<not> sint (f (Suc i)) < sint (f (Suc (Suc i)))"
  shows "\<not> strictly_increasing (map f [Suc 0..<Suc k])"
proof
  assume "strictly_increasing (map f [Suc 0..<Suc k])"
  then have "sorted_wrt (\<lambda>a b. sint a < sint b) (map f [Suc 0..<Suc k])"
    by (simp add: strictly_increasing_def)
  then have "sint (map f [Suc 0..<Suc k] ! i) < sint (map f [Suc 0..<Suc k] ! Suc i)"
    using assms(1) by (intro sorted_wrt_nth_less [where P = "\<lambda>a b. sint a < sint b"]) simp_all
  then show False
    using assms by (simp del: upt_Suc)
qed

section \<open>Payload headers\<close>

text \<open>
  C10: after \<open>setRequestId id\<close>, \<open>getRequestId\<close> returns \<open>id\<close>, for every header and every
  integer; on a header whose \<open>RequestId\<close> is nil, \<open>getRequestId\<close> dereferences the nil
  pointer and panics; it returns a value exactly when a requestId is present.
\<close>

theorem getRequestId_partial:
  "getRequestId (setRequestId i h) = Inr i
   \<and> getRequestId (h\<lparr>RequestId := None\<rparr>) = Inl NilPointerDereference
   \<and> ((\<exists>j. getRequestId h = Inr j) = (RequestId h \<noteq> None))"
  by (auto simp: getRequestId_def setRequestId_def split: option.splits)

section \<open>The addressing filter\<close>

text \<open>
  C7: dispatch goes on to the header check, correlation and fan-out exactly when the
  message's destination is the wildcard \<open>*\<close> or its source, destination and namespace are
  the channel's destination, source and namespace; otherwise the message is discarded: the
  call returns with the channel unchanged and no event, so neither a waiter nor a listener
  sees it. A wildcard destination goes on whatever the identity triple.
\<close>

theorem Message_addressing_filter:
  "Message c m h recv
     = (if spec_addressed c m then Message_accepted c m h recv else Returned (c, []))
   \<and> (DestinationId_msg m = ''*'' \<longrightarrow> Message c m h recv = Message_accepted c m h recv)"
  by (auto simp: Message_def spec_addressed_def)

theorem Message_addressing_filter_witness:
  "Message ex_channel ex_broadcast ex_status {3}
     = Returned (ex_channel\<lparr>inFlight := Map.empty\<rparr>,
         [Delivered 3 ex_broadcast, Invoked 11 ex_broadcast, Invoked 14 ex_broadcast])
   \<and> Message ex_channel ex_foreign ex_status {3} = Returned (ex_channel, [])"
proof -
  have wild: "DestinationId_msg ex_broadcast = ''*''"
    by (simp add: ex_defs)
  have other: "\<not> spec_addressed ex_channel ex_foreign"
    by (simp add: spec_addressed_def ex_defs)
  have acc: "Message_accepted ex_channel ex_broadcast ex_status {3}
      = Returned (ex_channel\<lparr>inFlight := Map.empty\<rparr>,
          [Delivered 3 ex_broadcast, Invoked 11 ex_broadcast, Invoked 14 ex_broadcast])"
    by (simp add: dispatch_defs ex_channel_def ex_status_def)
  have "Message ex_channel ex_broadcast ex_status {3}
      = Message_accepted ex_channel ex_broadcast ex_status {3}"
    using Message_addressing_filter [of ex_channel ex_broadcast ex_status "{3}"] wild by blast
  moreover have "Message ex_channel ex_foreign ex_status {3} = Returned (ex_channel, [])"
    using Message_addressing_filter [of ex_channel ex_foreign ex_status "{3}"] other by simp
  ultimately show ?thesis
    using acc by simp
qed

section \<open>Header validity\<close>

text \<open>
  C8, as amended: a message whose header has both \<open>type\<close> and \<open>responseType\<close> empty is
  discarded before correlation and fan-out: the call returns with the channel unchanged,
  no waiter receives the message, no callback is invoked and nothing is raised. The log
  line is written when the message passed the addressing filter; a message that fails the
  addressing filter is discarded before the header is looked at, without a log line.
\<close>

theorem Message_untyped_discarded:
  assumes "Type h = []" and "ResponseType h = []"
  shows "Message c m h recv = Returned (c, if spec_addressed c m then [Logged] else [])"
  using assms by (auto simp: Message_def Message_accepted_def spec_addressed_def)

theorem Message_untyped_discarded_witness:
  "Message ex_channel ex_reply ex_untyped {3} = Returned (ex_channel, [Logged])"
proof -
  have t: "Type ex_untyped = []" and r: "ResponseType ex_untyped = []"
    by (simp_all add: ex_defs)
  have "spec_addressed ex_channel ex_reply"
    by (simp add: spec_addressed_def ex_defs)
  then show ?thesis
    using Message_untyped_discarded [OF t r, of ex_channel ex_reply "{3}"] by simp
qed

text \<open>
  The claim as written fails on a frame for another sender whose header is empty: it is
  dropped by the addressing check and nothing is logged.
\<close>

theorem Message_untyped_foreign_not_logged:
  "Type ex_untyped = [] \<and> ResponseType ex_untyped = []
   \<and> Message ex_channel ex_foreign ex_untyped {3} = Returned (ex_channel, [])"
  by (simp add: Message_def ex_defs)

section \<open>Fan-out to listeners\<close>

text \<open>
  C9: for every message that passes both filters, dispatch is to call the callbacks of all
  the listeners whose key equals \<open>headers.type\<close> or, when \<open>headers.responseType\<close> is not
  empty, equals \<open>headers.responseType\<close>, in the order of the registry. The source does not
  do so for every such message: the loop over the listeners comes after the send to the
  waiter, and that send is on an unbuffered channel. Whenever the message carries the id
  of a waiter that is not receiving, dispatch parks at the send and no callback is called,
  whatever the registry holds.
\<close>

theorem fanout_not_reached_when_send_blocks:
  assumes "spec_addressed c m" and "Type h \<noteq> [] \<or> ResponseType h \<noteq> []"
    and "RequestId h = Some r" and "r \<noteq> 0" and "inFlight c r = Some ch" and "ch \<notin> recv"
  shows "Message c m h recv = BlockedOnSend ch (c, [])"
proof -
  have "correlate c m h recv = BlockedOnSend ch (c, [])"
    using assms(3-6) by (simp add: correlate_cases)
  then show ?thesis
    using assms(1,2) by (auto simp: Message_addressed Message_accepted_def)
qed

text \<open>
  A broadcast that passes both filters and carries the id of request 7, whose waiter has
  stopped receiving, matches the listeners 11 and 14, and neither is called.
\<close>

theorem fanout_not_reached_when_send_blocks_witness:
  "fanout (listeners ex_channel) ex_status ex_broadcast
     = [Invoked 11 ex_broadcast, Invoked 14 ex_broadcast]
   \<and> Message ex_channel ex_broadcast ex_status {} = BlockedOnSend 3 (ex_channel, [])"
proof -
  have a: "spec_addressed ex_channel ex_broadcast"
    by (simp add: spec_addressed_def ex_defs)
  have b: "Type ex_status \<noteq> [] \<or> ResponseType ex_status \<noteq> []"
    by (simp add: ex_defs)
  have c: "RequestId ex_status = Some 7" and d: "(7 :: go_int) \<noteq> 0"
    and e: "inFlight ex_channel 7 = Some 3" and f: "(3 :: chan) \<notin> {}"
    by (simp_all add: ex_defs)
  have "fanout (listeners ex_channel) ex_status ex_broadcast
      = [Invoked 11 ex_broadcast, Invoked 14 ex_broadcast]"
    by (simp add: ex_channel_def ex_status_def)
  then show ?thesis
    using fanout_not_reached_when_send_blocks [OF a b c d e f] by simp
qed

section \<open>Correlation and fan-out are independent\<close>

text \<open>
  C6: a message that passes both filters, whose requestId matches a pending request and
  whose \<open>type\<close> or \<open>responseType\<close> matches a listener, is both to complete the request and
  to reach the listener, the two being independent. In the source the fan-out depends on
  the delivery: it starts only when the send to the waiter has been received. When the
  request takes the branch of its deadline instead of the receive, it returns the
  context's error and its entry is deleted, and dispatch, which has found the waiter
  before, parks at the send: the request is not completed by the message, and the
  listener, which the fan-out would call, is not called.
\<close>

theorem fanout_waits_for_delivery:
  assumes "spec_addressed c m" and "Type h \<noteq> [] \<or> ResponseType h \<noteq> []"
    and "RequestId h = Some r" and "r \<noteq> 0" and "inFlight c r = Some ch" and "ch \<notin> recv"
    and "l \<in> set (listeners c)" and "spec_matches h l"
  shows "Request_select c r (Done err) = (deleteInFlight c r, Inl err)
         \<and> Message c m h recv = BlockedOnSend ch (c, [])
         \<and> (callback l, m) \<in> set (invoked (fanout (listeners c) h m))"
proof -
  have "correlate c m h recv = BlockedOnSend ch (c, [])"
    using assms(3-6) by (simp add: correlate_cases)
  then have "Message c m h recv = BlockedOnSend ch (c, [])"
    using assms(1,2) by (auto simp: Message_addressed Message_accepted_def)
  moreover have "(callback l, m) \<in> set (invoked (fanout (listeners c) h m))"
    using assms(7,8) by (auto simp: fanout_invoked)
  ultimately show ?thesis
    by (simp add: Request_select_def)
qed

text \<open>
  The reply to request 7 matches the listener 14; the request returns on its deadline,
  dispatch parks at the send, and listener 14 is not called.
\<close>

theorem fanout_waits_for_delivery_witness:
  "Request_select ex_channel 7 (Done DeadlineExceeded)
     = (ex_channel\<lparr>inFlight := Map.empty\<rparr>, Inl DeadlineExceeded)
   \<and> Message ex_channel ex_reply ex_status {} = BlockedOnSend 3 (ex_channel, [])
   \<and> (14, ex_reply) \<in> set (invoked (fanout (listeners ex_channel) ex_status ex_reply))"
proof -
  have a: "spec_addressed ex_channel ex_reply"
    by (simp add: spec_addressed_def ex_defs)
  have b: "Type ex_status \<noteq> [] \<or> ResponseType ex_status \<noteq> []"
    by (simp add: ex_defs)
  have c: "RequestId ex_status = Some 7" and d: "(7 :: go_int) \<noteq> 0"
    and e: "inFlight ex_channel 7 = Some 3" and f: "(3 :: chan) \<notin> {}"
    by (simp_all add: ex_defs)
  have g: "\<lparr>responseType = ''STATUS'', callback = 14\<rparr> \<in> set (listeners ex_channel)"
    by (simp add: ex_defs)
  have h: "spec_matches ex_status \<lparr>responseType = ''STATUS'', callback = 14\<rparr>"
    by (simp add: spec_matches_def ex_defs)
  have del: "deleteInFlight ex_channel 7 = ex_channel\<lparr>inFlight := Map.empty\<rparr>"
    by (simp add: deleteInFlight_def ex_channel_def)
  show ?thesis
    using fanout_waits_for_delivery [OF a b c d e f g h, of DeadlineExceeded] del by simp
qed

section \<open>Request and reply\<close>




section \<open>A failed send\<close>

text \<open>
  C3: when the underlying \<open>Send\<close> fails, \<open>Request\<close> returns that error, and the entry it
  inserted under its requestId is gone when it returns: the table is the one before the
  call without that key, hence the table before the call whenever the id was not already
  in flight. This holds on either width of \<open>int\<close>.
\<close>

theorem Request_send_failure_cleans_up:
  assumes "Request sz c p ch (Some err) ev = (c', res)"
  shows "res = Inl err
         \<and> inFlight c' (int_of_int64 sz (requestId c + 1)) = None
         \<and> inFlight c' = (inFlight c)(int_of_int64 sz (requestId c + 1) := None)
         \<and> (inFlight c (int_of_int64 sz (requestId c + 1)) = None \<longrightarrow> inFlight c' = inFlight c)"
  using assms
  by (auto simp: Request_def Request_send_failed insertInFlight_def deleteInFlight_def)

theorem Request_send_failure_cleans_up_witness:
  "Request Int64 ex_channel ex_query 5 (Some IOError) (Done Canceled)
     = (ex_channel\<lparr>requestId := 8\<rparr>, Inl IOError)
   \<and> inFlight (ex_channel\<lparr>requestId := 8\<rparr>) = inFlight ex_channel"
proof -
  have a: "Request Int64 ex_channel ex_query 5 (Some IOError) (Done Canceled)
      = (ex_channel\<lparr>requestId := 8\<rparr>, Inl IOError)"
    by (simp add: Request_def Request_send_def int_of_int64_def insertInFlight_def
        deleteInFlight_def ex_channel_def)
  show ?thesis
    using Request_send_failure_cleans_up [OF a] a by simp
qed

section \<open>Deadline and cancellation\<close>

text \<open>
  C4: when \<open>ctx.Done()\<close> fires before a reply was dispatched, \<open>Request\<close> returns the
  context's error (deadline exceeded or cancelled) and its entry is removed on that path;
  a message dispatched afterwards with that requestId returns with the channel unchanged
  and is sent to no waiter, and nothing is raised. This holds on either width of \<open>int\<close>.
\<close>

theorem Request_deadline_then_late_reply:
  assumes "Request sz c p ch None (Done err) = (c', res)"
    and "RequestId h = Some (int_of_int64 sz (requestId c + 1))"
  shows "res = Inl err
         \<and> inFlight c' (int_of_int64 sz (requestId c + 1)) = None
         \<and> (\<exists>evs. Message c' m h recv = Returned (c', evs) \<and> delivered evs = [])"
proof -
  let ?r = "int_of_int64 sz (requestId c + 1)"
  from assms(1) have c': "c' = deleteInFlight (insertInFlight (c\<lparr>requestId := requestId c + 1\<rparr>)
        ?r ch) ?r" and res: "res = Inl err"
    by (simp_all add: Request_def Request_send_ok Request_select_def)
  have gone: "inFlight c' ?r = None"
    by (simp add: c' deleteInFlight_def)
  show ?thesis
    using res gone Message_absent [OF assms(2) gone] by simp
qed

theorem Request_deadline_then_late_reply_witness:
  "Request Int64 ex_channel ex_query 5 None (Done DeadlineExceeded)
     = (ex_channel\<lparr>requestId := 8\<rparr>, Inl DeadlineExceeded)
   \<and> Message (ex_channel\<lparr>requestId := 8\<rparr>) ex_reply (ex_query\<lparr>RequestId := Some 8\<rparr>) {}
     = Returned (ex_channel\<lparr>requestId := 8\<rparr>, [])"
proof -
  have a: "Request Int64 ex_channel ex_query 5 None (Done DeadlineExceeded)
      = (ex_channel\<lparr>requestId := 8\<rparr>, Inl DeadlineExceeded)"
    by (simp add: Request_def Request_send_def Request_select_def int_of_int64_def
        insertInFlight_def deleteInFlight_def ex_channel_def)
  have b: "RequestId (ex_query\<lparr>RequestId := Some 8\<rparr>)
      = Some (int_of_int64 Int64 (requestId ex_channel + 1))"
    by (simp add: int_of_int64_def ex_defs)
  have "Message (ex_channel\<lparr>requestId := 8\<rparr>) ex_reply (ex_query\<lparr>RequestId := Some 8\<rparr>) {}
      = Returned (ex_channel\<lparr>requestId := 8\<rparr>, [])"
    by (simp add: dispatch_defs ex_channel_def ex_query_def ex_reply_def)
  then show ?thesis
    using Request_deadline_then_late_reply [OF a b, of ex_reply "{}"] a by simp
qed

section \<open>Request ids\<close>

text \<open>
  C5, as amended: along any sequence of calls on one Channel during which the counter
  stays within the values of \<open>int\<close> on the build target, that is between \<open>-2^31\<close> and
  \<open>2^31 - 1\<close> where \<open>int\<close> has 32 bits and between \<open>-2^63\<close> and \<open>2^63 - 1\<close> where it has
  64 (on a new Channel: fewer than \<open>2^31\<close>, respectively \<open>2^63\<close>, requests), the
  requestIds stamped into the payloads are strictly increasing and pairwise different,
  one per request, whatever the outcome of each request (reply, failed send, deadline or
  cancellation) and whatever is dispatched or registered in between.
\<close>

theorem stamped_strictly_increasing:
  assumes "- int_bound sz \<le> sint (requestId c)"
    and "sint (requestId c) + int (requests calls) < int_bound sz"
  shows "strictly_increasing (stamped sz c calls) \<and> distinct (stamped sz c calls)
     \<and> length (stamped sz c calls) = requests calls"
  using assms unfolding strictly_increasing_def
proof (induction calls arbitrary: c)
  case Nil
  then show ?case by simp
next
  case (Cons a calls)
  show ?case
  proof (cases a)
    case (CallRequest p ch sent ev)
    let ?c' = "fst (Request sz c p ch sent ev)"
    have small: "sint (requestId c) + 1 < int_bound sz"
      using Cons.prems(2) CallRequest by simp
    note s = next_id [OF Cons.prems(1) small]
    have b: "- int_bound sz \<le> sint (requestId ?c')"
      "sint (requestId ?c') + int (requests calls) < int_bound sz"
      using Cons.prems CallRequest s(1) by (simp_all add: requestId_Request)
    have above: "\<forall>r \<in> set (stamped sz ?c' calls). sint (int_of_int64 sz (requestId c + 1)) < sint r"
      using stamped_above [OF b] s by (simp add: requestId_Request)
    then have "int_of_int64 sz (requestId c + 1) \<notin> set (stamped sz ?c' calls)"
      by auto
    with above Cons.IH [OF b] show ?thesis
      by (simp add: CallRequest stamped_Request del: stamped.simps)
  next
    case (CallMessage m h recv)
    then show ?thesis
      using Cons.IH [of "after_Message (Message c m h recv)"] Cons.prems
      by (simp add: requestId_Message)
  next
    case (CallOnMessage k cb)
    then show ?thesis
      using Cons.IH [of "OnMessage c k cb"] Cons.prems
      by (simp add: requestId_OnMessage)
  qed
qed

theorem stamped_strictly_increasing_witness:
  "stamped Int32 ex_channel
     [CallRequest ex_query 5 None (Reply ex_reply), CallMessage ex_reply ex_status {3},
      CallRequest ex_query 6 (Some IOError) (Done Canceled), CallOnMessage ''PING'' 15,
      CallRequest ex_query 8 None (Done DeadlineExceeded)] = [8, 9, 10]
   \<and> strictly_increasing [8, 9, 10] \<and> distinct [8 :: go_int, 9, 10]"
proof -
  let ?calls = "[CallRequest ex_query 5 None (Reply ex_reply), CallMessage ex_reply ex_status {3},
      CallRequest ex_query 6 (Some IOError) (Done Canceled), CallOnMessage ''PING'' 15,
      CallRequest ex_query 8 None (Done DeadlineExceeded)]"
  have a: "- int_bound Int32 \<le> sint (requestId ex_channel)"
    by (simp add: int_bound_def ex_channel_def)
  have b: "sint (requestId ex_channel) + int (requests ?calls) < int_bound Int32"
    by (simp add: int_bound_def ex_channel_def)
  have c: "stamped Int32 ex_channel ?calls = [8, 9, 10]"
    by (simp add: stamped_Request requestId_Request requestId_Message requestId_OnMessage
        int_of_int64_def ex_channel_def del: stamped.simps(2))
  show ?thesis
    using stamped_strictly_increasing [OF a b] c by simp
qed

text \<open>
  The claim as written fails once the counter leaves the values of \<open>int\<close>. Where \<open>int\<close>
  has 32 bits, the \<open>2^31\<close> requests of a new Channel are stamped \<open>1, 2, \<dots>, 2^31 - 1\<close>
  and then \<open>-2^31\<close>; where it has 64, the \<open>2^63\<close> requests of a new Channel are stamped
  \<open>1, 2, \<dots>, 2^63 - 1\<close> and then \<open>-2^63\<close>.
\<close>

theorem stamped_wraps:
  "\<not> strictly_increasing
       (stamped Int32 (NewChannel ''sender-0'' ''receiver-0'' ''urn:x-cast:com.google.cast.receiver'')
          (replicate (2 ^ 31) (CallRequest ex_query 5 None (Done Canceled))))
   \<and> \<not> strictly_increasing
       (stamped Int64 (NewChannel ''sender-0'' ''receiver-0'' ''urn:x-cast:com.google.cast.receiver'')
          (replicate (2 ^ 63) (CallRequest ex_query 5 None (Done Canceled))))"
proof -
  have small: "\<not> sint (int_of_int64 Int32 (0 + of_nat (Suc (2 ^ 31 - 2))))
      < sint (int_of_int64 Int32 (0 + of_nat (Suc (Suc (2 ^ 31 - 2)))))"
    by (simp add: int_of_int64_def)
  have large: "\<not> sint (int_of_int64 Int64 (0 + of_nat (Suc (2 ^ 63 - 2))))
      < sint (int_of_int64 Int64 (0 + of_nat (Suc (Suc (2 ^ 63 - 2)))))"
    by (simp add: int_of_int64_def)
  have "\<not> strictly_increasing
      (map (\<lambda>i. int_of_int64 Int32 (0 + of_nat i)) [Suc 0..<Suc (2 ^ 31)])"
    using small by (intro not_increasing_at [where i = "2 ^ 31 - 2"]) simp_all
  moreover have "\<not> strictly_increasing
      (map (\<lambda>i. int_of_int64 Int64 (0 + of_nat i)) [Suc 0..<Suc (2 ^ 63)])"
    using large by (intro not_increasing_at [where i = "2 ^ 63 - 2"]) simp_all
  ultimately show ?thesis
    by (simp add: stamped_replicate NewChannel_def del: upt_Suc)
qed

section \<open>Reply against deadline\<close>

text \<open>
  C2: when the dispatch of a reply races the deadline of its request, exactly one of the
  two is to remove the table entry and resolve the request, and the loser is to find the
  entry gone and do nothing more, so that nothing stays blocked. The source misses this
  on one interleaving: the lookup and the send in \<open>Message\<close> are not one atomic step.
  When dispatch has found the waiter of request 7 and the deadline fires before the send
  is received, \<open>Request\<close> deletes the entry and returns the context's error; dispatch is
  then at the send on a channel that has no receiver any more, and no action is enabled:
  it is parked for ever, before its delete and before the fan-out.
\<close>

theorem reply_after_deadline_blocks_dispatch:
  "schedule 7 3 ex_reply [Lookup, CtxDone DeadlineExceeded] ex_race
     = Some \<lparr> channel = ex_channel\<lparr>inFlight := Map.empty\<rparr>, dispatching = AtSend 3,
              requesting = Resolved (Inl DeadlineExceeded) \<rparr>
   \<and> (\<forall>a. fire 7 3 ex_reply a
          \<lparr> channel = ex_channel\<lparr>inFlight := Map.empty\<rparr>, dispatching = AtSend 3,
            requesting = Resolved (Inl DeadlineExceeded) \<rparr> = None)"
proof -
  have "\<And>a. fire 7 3 ex_reply a
          \<lparr> channel = ex_channel\<lparr>inFlight := Map.empty\<rparr>, dispatching = AtSend 3,
            requesting = Resolved (Inl DeadlineExceeded) \<rparr> = None"
    subgoal for a by (cases a) simp_all
    done
  moreover have "schedule 7 3 ex_reply [Lookup, CtxDone DeadlineExceeded] ex_race
     = Some \<lparr> channel = ex_channel\<lparr>inFlight := Map.empty\<rparr>, dispatching = AtSend 3,
              requesting = Resolved (Inl DeadlineExceeded) \<rparr>"
    by (simp add: ex_race_def lookupInFlight_def deleteInFlight_def ex_channel_def)
  ultimately show ?thesis by blast
qed

end
